theory Spec2Isabelle
  imports Main
begin

section \<open>Hervor: a declarative HTTP API test runner\<close>

text \<open>
  A shallow embedding of \<^verbatim>\<open>src/hervor.py\<close>. The program is dynamically typed: the
  parser copies the values of the decoded JSON document into the dataclasses without
  looking at their types, and the executor applies \<^verbatim>\<open>+\<close> and \<^verbatim>\<open>==\<close> to
  whatever it finds there. The embedding keeps that: fields hold decoded JSON values, and
  the Python operators are functions on those values with their failures written out.
\<close>

subsection \<open>Values and exceptions\<close>

text \<open>
  The values \<^verbatim>\<open>json.load\<close> produces. \<^verbatim>\<open>None\<close> is \<open>JNull\<close>. A Python dict keeps its
  keys in insertion order, so an object is an association list, in document order
  (a dict has no repeated key; see \<open>dict_ok\<close>). Numbers with a fraction or an
  exponent (Python floats) are left out. A string is a list of characters; the program
  concatenates strings and compares them, and does nothing else with them.
\<close>

datatype json =
    JNull
  | JBool bool
  | JInt int
  | JStr string
  | JArr "json list"
  | JObj "(string \<times> json) list"

type_synonym dict = "(string \<times> json) list"

text \<open>
  Exceptions are values. \<open>NoBaseURI\<close> is the exit through the \<^verbatim>\<open>raise\<close> statement of
  \<^verbatim>\<open>conduct_tests\<close> (lines 142-143). That statement builds its exception with
  \<^verbatim>\<open>ArgumentError(message)\<close>, one argument where argparse's constructor takes an
  argument and a message, so what leaves the function there is the \<^verbatim>\<open>TypeError\<close> of
  that call; the model gives the exit a name of its own, to tell it from the other
  exceptions. \<open>RequestFailed\<close> is any exception that comes out of
  \<^verbatim>\<open>requests.request\<close>, with whatever the library reports.
\<close>

datatype error =
    KeyError string
  | TypeError
  | AttributeError
  | NoBaseURI
  | RequestFailed string

subsection \<open>Python's dict and operators on decoded values\<close>

definition dict_ok :: "dict \<Rightarrow> bool" where
  "dict_ok d = distinct (map fst d)"

text \<open>\<^verbatim>\<open>k in d\<close>\<close>

definition dict_in :: "string \<Rightarrow> dict \<Rightarrow> bool" where
  "dict_in k d = (map_of d k \<noteq> None)"

text \<open>\<^verbatim>\<open>d[k]\<close>: a missing key raises.\<close>

definition dict_getitem :: "dict \<Rightarrow> string \<Rightarrow> error + json" where
  "dict_getitem d k = (case map_of d k of None \<Rightarrow> Inl (KeyError k) | Some v \<Rightarrow> Inr v)"

text \<open>\<^verbatim>\<open>d.get(k)\<close>: a missing key gives \<^verbatim>\<open>None\<close>.\<close>

definition dict_get :: "dict \<Rightarrow> string \<Rightarrow> json" where
  "dict_get d k = (case map_of d k of None \<Rightarrow> JNull | Some v \<Rightarrow> v)"

text \<open>\<^verbatim>\<open>del d[k]\<close>: a missing key raises; the other entries keep their order.\<close>

definition dict_del :: "dict \<Rightarrow> string \<Rightarrow> error + dict" where
  "dict_del d k =
     (if dict_in k d then Inr (filter (\<lambda>kv. fst kv \<noteq> k) d) else Inl (KeyError k))"

text \<open>\<^verbatim>\<open>for k in d\<close> visits the keys in insertion order.\<close>

definition dict_keys :: "dict \<Rightarrow> string list" where
  "dict_keys d = map fst d"

text \<open>
  \<^verbatim>\<open>v[k]\<close> with a string \<open>k\<close>, on any decoded value: only a dict can be indexed by
  a string.
\<close>

fun py_getitem :: "json \<Rightarrow> string \<Rightarrow> error + json" where
  "py_getitem (JObj d) k = dict_getitem d k"
| "py_getitem _ k = Inl TypeError"

text \<open>\<^verbatim>\<open>v.get(k)\<close>: only a dict has the method.\<close>

fun py_get :: "json \<Rightarrow> string \<Rightarrow> error + json" where
  "py_get (JObj d) k = Inr (dict_get d k)"
| "py_get _ k = Inl AttributeError"

text \<open>
  \<^verbatim>\<open>for x in v\<close>: a list gives its elements, a dict its keys, a string its characters
  (each a string of length one); nothing else is iterable.
\<close>

fun py_iter :: "json \<Rightarrow> error + json list" where
  "py_iter (JArr xs) = Inr xs"
| "py_iter (JObj d) = Inr (map JStr (dict_keys d))"
| "py_iter (JStr s) = Inr (map (\<lambda>c. JStr [c]) s)"
| "py_iter _ = Inl TypeError"

text \<open>
  \<^verbatim>\<open>a + b\<close>: strings and lists concatenate, integers add (\<^verbatim>\<open>bool\<close> is a subclass of
  \<^verbatim>\<open>int\<close>), every other pair raises \<^verbatim>\<open>TypeError\<close>.
\<close>

fun py_int :: "json \<Rightarrow> int option" where
  "py_int (JInt n) = Some n"
| "py_int (JBool b) = Some (if b then 1 else 0)"
| "py_int _ = None"

fun py_add :: "json \<Rightarrow> json \<Rightarrow> error + json" where
  "py_add (JStr a) (JStr b) = Inr (JStr (a @ b))"
| "py_add (JArr a) (JArr b) = Inr (JArr (a @ b))"
| "py_add a b =
     (case (py_int a, py_int b) of
        (Some m, Some n) \<Rightarrow> Inr (JInt (m + n))
      | _ \<Rightarrow> Inl TypeError)"

text \<open>
  \<^verbatim>\<open>n == v\<close> for an \<^verbatim>\<open>int\<close> \<open>n\<close> (the response's status code) and \<^verbatim>\<open>s == v\<close> for a
  \<^verbatim>\<open>str\<close> \<open>s\<close> (the response's text). Values of unrelated types compare unequal;
  \<^verbatim>\<open>True == 1\<close> and \<^verbatim>\<open>False == 0\<close> hold.
\<close>

definition py_eq_int :: "int \<Rightarrow> json \<Rightarrow> bool" where
  "py_eq_int n v = (py_int v = Some n)"

fun py_eq_str :: "string \<Rightarrow> json \<Rightarrow> bool" where
  "py_eq_str s (JStr t) = (s = t)"
| "py_eq_str s _ = False"

subsection \<open>The model (lines 9-60)\<close>

text \<open>
  The three dataclasses. Their annotations are not checked when an object is built, so
  a field holds whatever value the document has under its key. Each class has a field
  \<^verbatim>\<open>name\<close>: the records call the one of a group \<open>group_name\<close> (a key of the
  document, so a string) and the one of a bundle \<open>bundle_name\<close>.
\<close>

record TestCase =
  name :: json
  endpoint :: json
  "method" :: json
  status :: json
  "output" :: json

record TestGroup =
  group_name :: string
  test_cases :: "TestCase list"

record Test =
  bundle_name :: json
  variables :: "(string \<times> string) list"
  default_uri :: json
  test_groups :: "TestGroup list"

subsection \<open>The outside world: HTTP and the terminal\<close>

text \<open>
  \<^verbatim>\<open>requests.request(method, url)\<close> gives a response (an integer status code and the
  body as text) or raises. What it answers is up to the server, so the model takes the
  network as a parameter: a function of a world state \<open>'w\<close>, which it may change.
  Every call is also recorded in a trace, together with every \<^verbatim>\<open>cprint\<close>, in the order
  in which they happen.
\<close>

record response =
  status_code :: int
  body_text :: string

type_synonym 'w network = "'w \<Rightarrow> json \<Rightarrow> json \<Rightarrow> (string + response) \<times> 'w"

text \<open>
  The text of a \<^verbatim>\<open>cprint\<close> is a sequence of literal pieces and formatted values
  (\<^verbatim>\<open>{test_case.name}\<close> inside an f-string).
\<close>

datatype frag = Lit string | Val json

datatype event =
    Cprint "frag list" string string
  | Request json json

type_synonym 'w state = "'w \<times> event list"

definition newline :: string where
  "newline = [CHR 0x0A]"

text \<open>\<^verbatim>\<open>cprint(text, color, end=e)\<close>; \<^verbatim>\<open>end\<close> defaults to a newline.\<close>

definition cprint :: "frag list \<Rightarrow> string \<Rightarrow> string \<Rightarrow> 'w state \<Rightarrow> 'w state" where
  "cprint t color e s = (fst s, snd s @ [Cprint t color e])"

subsection \<open>\<^verbatim>\<open>TestCase.conduct\<close> (lines 21-36)\<close>

definition conduct ::
  "'w network \<Rightarrow> TestCase \<Rightarrow> json \<Rightarrow> 'w state \<Rightarrow> (error + bool) \<times> 'w state" where
  "conduct net self base_uri s =
     (case py_add base_uri (endpoint self) of
        Inl e \<Rightarrow> (Inl e, s)
      | Inr url \<Rightarrow>
          (case net (fst s) (method self) url of
             (Inl x, w') \<Rightarrow> (Inl (RequestFailed x), (w', snd s @ [Request (method self) url]))
           | (Inr req, w') \<Rightarrow>
               (let result = py_eq_int (status_code req) (status self);
                    result = (if output self \<noteq> JNull
                              then result \<and> py_eq_str (body_text req) (output self)
                              else result)
                in (Inr result, (w', snd s @ [Request (method self) url])))))"

subsection \<open>The parser (lines 63-129)\<close>

definition parse_test_case :: "json \<Rightarrow> error + TestCase" where
  "parse_test_case test_case_data =
     (case py_getitem test_case_data ''Name'' of Inl e \<Rightarrow> Inl e | Inr n \<Rightarrow>
     (case py_getitem test_case_data ''Endpoint'' of Inl e \<Rightarrow> Inl e | Inr ep \<Rightarrow>
     (case py_getitem test_case_data ''Method'' of Inl e \<Rightarrow> Inl e | Inr m \<Rightarrow>
     (case py_getitem test_case_data ''Status'' of Inl e \<Rightarrow> Inl e | Inr st \<Rightarrow>
     (case py_get test_case_data ''Output'' of Inl e \<Rightarrow> Inl e | Inr out \<Rightarrow>
        Inr \<lparr>name = n, endpoint = ep, method = m, status = st, output = out\<rparr>)))))"

text \<open>The loop of \<^verbatim>\<open>parse_test_cases\<close>, with the list it appends to.\<close>

fun parse_test_cases_loop :: "json list \<Rightarrow> TestCase list \<Rightarrow> error + TestCase list" where
  "parse_test_cases_loop [] acc = Inr acc"
| "parse_test_cases_loop (test_case_data # rest) acc =
     (case parse_test_case test_case_data of
        Inl e \<Rightarrow> Inl e
      | Inr c \<Rightarrow> parse_test_cases_loop rest (acc @ [c]))"

definition parse_test_cases :: "json \<Rightarrow> error + TestCase list" where
  "parse_test_cases test_group_data =
     (case py_iter test_group_data of
        Inl e \<Rightarrow> Inl e
      | Inr xs \<Rightarrow> parse_test_cases_loop xs [])"

text \<open>
  The loop of \<^verbatim>\<open>parse_test_groups\<close> over the keys of the dict, which it reads with
  \<^verbatim>\<open>program_data[test_name]\<close>.
\<close>

fun parse_test_groups_loop ::
  "dict \<Rightarrow> string list \<Rightarrow> TestGroup list \<Rightarrow> error + TestGroup list" where
  "parse_test_groups_loop program_data [] acc = Inr acc"
| "parse_test_groups_loop program_data (test_name # rest) acc =
     (case dict_getitem program_data test_name of
        Inl e \<Rightarrow> Inl e
      | Inr v \<Rightarrow>
          (case parse_test_cases v of
             Inl e \<Rightarrow> Inl e
           | Inr cs \<Rightarrow>
               parse_test_groups_loop program_data rest
                 (acc @ [\<lparr>group_name = test_name, test_cases = cs\<rparr>])))"

text \<open>
  \<^verbatim>\<open>parse_test_groups\<close> deletes keys from the dict it is given, so it returns the dict
  as it leaves it, next to its result (or its exception).
\<close>

definition parse_test_groups :: "dict \<Rightarrow> (error + TestGroup list) \<times> dict" where
  "parse_test_groups program_data =
     (case (if dict_in ''Default URI'' program_data
            then dict_del program_data ''Default URI'' else Inr program_data) of
        Inl e \<Rightarrow> (Inl e, program_data)
      | Inr d1 \<Rightarrow>
          (case dict_del d1 ''Name'' of
             Inl e \<Rightarrow> (Inl e, d1)
           | Inr d2 \<Rightarrow> (parse_test_groups_loop d2 (dict_keys d2) [], d2)))"

text \<open>
  \<^verbatim>\<open>parse_tests\<close>, from the value \<^verbatim>\<open>load(file)\<close> returned. The arguments of
  \<^verbatim>\<open>Test(...)\<close> are evaluated from left to right: \<^verbatim>\<open>program_data['Name']\<close> before
  the call of \<^verbatim>\<open>parse_test_groups\<close>.
\<close>

definition parse_tests :: "json \<Rightarrow> error + Test" where
  "parse_tests program_data =
     (case py_get program_data ''Default URI'' of Inl e \<Rightarrow> Inl e | Inr duri \<Rightarrow>
     (case py_getitem program_data ''Name'' of Inl e \<Rightarrow> Inl e | Inr n \<Rightarrow>
     (case program_data of
        JObj d \<Rightarrow>
          (case fst (parse_test_groups d) of
             Inl e \<Rightarrow> Inl e
           | Inr gs \<Rightarrow>
               Inr \<lparr>bundle_name = n, variables = [], default_uri = duri, test_groups = gs\<rparr>)
      | _ \<Rightarrow> Inl AttributeError)))"

subsection \<open>The executor (lines 132-153)\<close>

definition tab :: string where
  "tab = [CHR 0x09]"

definition cr :: string where
  "cr = [CHR 0x0D]"

text \<open>The inner loop, over the cases of one group.\<close>

fun conduct_cases ::
  "'w network \<Rightarrow> json \<Rightarrow> TestCase list \<Rightarrow> 'w state \<Rightarrow> (error + unit) \<times> 'w state" where
  "conduct_cases net base_uri [] s = (Inr (), s)"
| "conduct_cases net base_uri (test_case # rest) s =
     (let s1 = cprint [Lit tab, Val (name test_case), Lit '' Testing''] ''grey'' [] s
      in case conduct net test_case base_uri s1 of
           (Inl e, s2) \<Rightarrow> (Inl e, s2)
         | (Inr test_result, s2) \<Rightarrow>
             conduct_cases net base_uri rest
               (if test_result
                then cprint [Lit (cr @ tab), Val (name test_case), Lit '' Passed!'']
                       ''green'' newline s2
                else cprint [Lit (cr @ tab), Val (name test_case), Lit '' Failed!'']
                       ''red'' newline s2))"

text \<open>The outer loop, over the groups.\<close>

fun conduct_groups ::
  "'w network \<Rightarrow> json \<Rightarrow> TestGroup list \<Rightarrow> 'w state \<Rightarrow> (error + unit) \<times> 'w state" where
  "conduct_groups net base_uri [] s = (Inr (), s)"
| "conduct_groups net base_uri (test_group # rest) s =
     (case conduct_cases net base_uri (test_cases test_group)
             (cprint [Lit (group_name test_group)] ''blue'' newline s) of
        (Inl e, s') \<Rightarrow> (Inl e, s')
      | (Inr u, s') \<Rightarrow> conduct_groups net base_uri rest s')"

definition conduct_tests ::
  "'w network \<Rightarrow> Test \<Rightarrow> json \<Rightarrow> 'w state \<Rightarrow> (error + unit) \<times> 'w state" where
  "conduct_tests net test base_uri s =
     (if base_uri = JNull
      then (if default_uri test = JNull
            then (Inl NoBaseURI, s)
            else conduct_groups net (default_uri test) (test_groups test) s)
      else conduct_groups net base_uri (test_groups test) s)"


subsection \<open>An example bundle and an example server\<close>

text \<open>
  A case without and a case with an expected body, and a server that answers
  \<^verbatim>\<open>GET http://x/a\<close> with status 200 and the body \<^verbatim>\<open>"ok "\<close> (with a trailing
  blank) and everything else with 404. Its state counts the requests it has received.
\<close>

definition example_case :: TestCase where
  "example_case =
     \<lparr>name = JStr ''c1'', endpoint = JStr ''/a'', method = JStr ''GET'',
      status = JInt 200, output = JNull\<rparr>"

definition example_case_body :: TestCase where
  "example_case_body = example_case\<lparr>name := JStr ''c2'', output := JStr ''ok''\<rparr>"

definition example_server :: "nat network" where
  "example_server w m url =
     (if m = JStr ''GET'' \<and> url = JStr ''http://x/a''
      then (Inr \<lparr>status_code = 200, body_text = ''ok ''\<rparr>, Suc w)
      else (Inr \<lparr>status_code = 404, body_text = []\<rparr>, Suc w))"

text \<open>
  A document with its reserved keys among the groups, and with group names that are not
  in alphabetical order; \<open>example_test\<close> is the bundle it parses to.
\<close>

definition example_document :: dict where
  "example_document =
     [(''Name'', JStr ''S''),
      (''Zeta'', JArr [JObj [(''Name'', JStr ''c2''), (''Endpoint'', JStr ''/a''),
                             (''Method'', JStr ''GET''), (''Status'', JInt 200),
                             (''Output'', JStr ''ok'')],
                       JObj [(''Name'', JStr ''c1''), (''Endpoint'', JStr ''/a''),
                             (''Method'', JStr ''GET''), (''Status'', JInt 200)]]),
      (''Default URI'', JStr ''http://x''),
      (''Alpha'', JArr [])]"

definition example_test :: Test where
  "example_test =
     \<lparr>bundle_name = JStr ''S'', variables = [], default_uri = JStr ''http://x'',
      test_groups = [\<lparr>group_name = ''Zeta'',
                      test_cases = [example_case_body, example_case]\<rparr>,
                     \<lparr>group_name = ''Alpha'', test_cases = []\<rparr>]\<rparr>"

subsection \<open>Reading the trace\<close>

text \<open>
  The requests of a trace, in order, each with its method and its URL.
\<close>

fun request_of :: "event \<Rightarrow> (json \<times> json) option" where
  "request_of (Request m url) = Some (m, url)"
| "request_of _ = None"

definition requests :: "event list \<Rightarrow> (json \<times> json) list" where
  "requests tr = List.map_filter request_of tr"

text \<open>
  The report a reader sees on the terminal: the group names (printed in blue) and one
  line for each case that got a verdict (printed in green or in red). The progress line
  of a case (in grey, without a newline) is overwritten by its verdict.
\<close>

datatype line = GroupLine string | CaseLine json

fun line_of :: "event \<Rightarrow> line option" where
  "line_of (Cprint [Lit g] color e) = (if color = ''blue'' then Some (GroupLine g) else None)"
| "line_of (Cprint [Lit p, Val n, Lit q] color e) =
     (if color = ''green'' \<or> color = ''red'' then Some (CaseLine n) else None)"
| "line_of _ = None"

definition report :: "event list \<Rightarrow> line list" where
  "report tr = List.map_filter line_of tr"


subsection \<open>Documents of the expected shape\<close>











section \<open>Properties\<close>

subsection \<open>Verdict of one case\<close>

text \<open>
  C1. When the expected output is present, the case passes exactly when the observed
  status code equals the expected status and the whole response body equals the expected
  output, character for character; otherwise it fails.
\<close>

theorem conduct_output_present:
  assumes "output c \<noteq> JNull"
    and "status c = JInt n"
    and "py_add base (endpoint c) = Inr url"
    and "net w (method c) url = (Inr r, w')"
  shows "fst (conduct net c base (w, tr))
           = Inr (status_code r = n \<and> JStr (body_text r) = output c)"
proof -
  have "py_eq_str (body_text r) (output c) = (JStr (body_text r) = output c)"
    by (cases "output c") auto
  with assms show ?thesis
    by (auto simp add: conduct_def py_eq_int_def)
qed

theorem conduct_output_present_witness:
  "output example_case_body \<noteq> JNull
   \<and> status example_case_body = JInt 200
   \<and> py_add (JStr ''http://x'') (endpoint example_case_body) = Inr (JStr ''http://x/a'')
   \<and> example_server 0 (method example_case_body) (JStr ''http://x/a'')
        = (Inr \<lparr>status_code = 200, body_text = ''ok ''\<rparr>, 1)
   \<and> fst (conduct example_server example_case_body (JStr ''http://x'') (0, [])) = Inr False"
  using conduct_output_present [of example_case_body 200 "JStr ''http://x''" "JStr ''http://x/a''"
      example_server 0 "\<lparr>status_code = 200, body_text = ''ok ''\<rparr>" 1 "[]"]
  by (simp add: example_case_body_def example_case_def example_server_def)

text \<open>
  C2. When the expected output is absent, the case passes exactly when the observed
  status code equals the expected status, whatever the response body is.
\<close>

theorem conduct_output_absent:
  assumes "output c = JNull"
    and "status c = JInt n"
    and "py_add base (endpoint c) = Inr url"
    and "net w (method c) url = (Inr r, w')"
  shows "fst (conduct net c base (w, tr)) = Inr (status_code r = n)"
  using assms by (auto simp add: conduct_def py_eq_int_def)

theorem conduct_output_absent_witness:
  "output example_case = JNull
   \<and> status example_case = JInt 200
   \<and> py_add (JStr ''http://x'') (endpoint example_case) = Inr (JStr ''http://x/a'')
   \<and> example_server 0 (method example_case) (JStr ''http://x/a'')
        = (Inr \<lparr>status_code = 200, body_text = ''ok ''\<rparr>, 1)
   \<and> fst (conduct example_server example_case (JStr ''http://x'') (0, [])) = Inr True"
  using conduct_output_absent [of example_case 200 "JStr ''http://x''" "JStr ''http://x/a''"
      example_server 0 "\<lparr>status_code = 200, body_text = ''ok ''\<rparr>" 1 "[]"]
  by (simp add: example_case_def example_server_def)

subsection \<open>The target URL\<close>

text \<open>
  C7. For a base URI \<open>b\<close> and an endpoint \<open>e\<close>, both strings, the one request of a case
  goes to the URL \<open>b @ e\<close>, the two strings put together as they are: this is the URL
  recorded in the trace and the URL the network is called with.
\<close>

theorem conduct_url_is_concatenation:
  assumes "endpoint c = JStr e"
  shows "snd (snd (conduct net c (JStr b) (w, tr))) = tr @ [Request (method c) (JStr (b @ e))]
         \<and> fst (snd (conduct net c (JStr b) (w, tr))) = snd (net w (method c) (JStr (b @ e)))"
  using assms by (simp add: conduct_def Let_def split: prod.splits sum.splits)

theorem conduct_url_is_concatenation_witness:
  "endpoint example_case = JStr ''/a''
   \<and> snd (snd (conduct example_server example_case (JStr ''http://x/'') (0, [])))
        = [Request (JStr ''GET'') (JStr ''http://x//a'')]"
  using conduct_url_is_concatenation [of example_case "''/a''" example_server "''http://x/''" 0 "[]"]
  by (simp add: example_case_def)

subsection \<open>The effective base URI\<close>

lemma conduct_not_NoBaseURI: "fst (conduct net c b s) \<noteq> Inl NoBaseURI"
  by (cases "py_add b (endpoint c)"; cases b; cases "endpoint c")
     (auto simp add: conduct_def Let_def split: prod.splits sum.splits option.splits)

lemma conduct_cases_not_NoBaseURI: "fst (conduct_cases net b cs s) \<noteq> Inl NoBaseURI"
proof (induction cs arbitrary: s)
  case Nil
  show ?case by simp
next
  case (Cons c cs)
  define s1 where "s1 = cprint [Lit tab, Val (name c), Lit '' Testing''] ''grey'' [] s"
  obtain r s2 where c: "conduct net c b s1 = (r, s2)"
    by (cases "conduct net c b s1")
  show ?case
  proof (cases r)
    case (Inl e)
    with c conduct_not_NoBaseURI [of net c b s1] show ?thesis
      by (simp add: s1_def [symmetric])
  next
    case (Inr v)
    with c Cons.IH show ?thesis
      by (simp add: s1_def [symmetric])
  qed
qed

lemma conduct_groups_not_NoBaseURI: "fst (conduct_groups net b gs s) \<noteq> Inl NoBaseURI"
proof (induction gs arbitrary: s)
  case Nil
  show ?case by simp
next
  case (Cons g gs)
  define s1 where "s1 = cprint [Lit (group_name g)] ''blue'' newline s"
  obtain r s2 where c: "conduct_cases net b (test_cases g) s1 = (r, s2)"
    by (cases "conduct_cases net b (test_cases g) s1")
  show ?case
  proof (cases r)
    case (Inl e)
    with c conduct_cases_not_NoBaseURI [of net b "test_cases g" s1] show ?thesis
      by (simp add: s1_def [symmetric])
  next
    case (Inr v)
    with c Cons.IH show ?thesis
      by (simp add: s1_def [symmetric])
  qed
qed

text \<open>
  C4. When neither an override nor a default base URI is present (both are \<^verbatim>\<open>None\<close>),
  the run ends with the error of the resolution step and leaves the state as it was: no
  request has been sent and nothing has been printed. When one of the two is present,
  the run does not end with that error.
\<close>

theorem no_base_uri_fails_before_any_request:
  "(b = JNull \<and> default_uri t = JNull \<longrightarrow> conduct_tests net t b s = (Inl NoBaseURI, s))
   \<and> (\<not> (b = JNull \<and> default_uri t = JNull) \<longrightarrow> fst (conduct_tests net t b s) \<noteq> Inl NoBaseURI)"
  using conduct_groups_not_NoBaseURI [of net _ "test_groups t" s]
  by (simp add: conduct_tests_def)

theorem no_base_uri_fails_before_any_request_witness:
  "conduct_tests example_server (example_test\<lparr>default_uri := JNull\<rparr>) JNull (0, [])
     = (Inl NoBaseURI, (0, []))
   \<and> fst (conduct_tests example_server example_test JNull (0, [])) \<noteq> Inl NoBaseURI
   \<and> fst (conduct_tests example_server (example_test\<lparr>default_uri := JNull\<rparr>) (JStr ''http://y'') (0, []))
       \<noteq> Inl NoBaseURI"
  using no_base_uri_fails_before_any_request
          [where b = JNull and t = "example_test\<lparr>default_uri := JNull\<rparr>"
             and net = example_server and s = "(0, [])"]
        no_base_uri_fails_before_any_request
          [where b = JNull and t = example_test and net = example_server and s = "(0, [])"]
        no_base_uri_fails_before_any_request
          [where b = "JStr ''http://y''" and t = "example_test\<lparr>default_uri := JNull\<rparr>"
             and net = example_server and s = "(0, [])"]
  by (simp add: example_test_def)

text \<open>
  C3, as the code has it. An override that is not \<^verbatim>\<open>None\<close> is the base URI of the
  whole run, whatever the bundle's default is, and also when the override is the empty
  string; when the override is \<^verbatim>\<open>None\<close> and the bundle has a default, the default is
  the base URI of the run.
\<close>

theorem override_takes_precedence:
  "(b \<noteq> JNull \<longrightarrow> conduct_tests net t b s = conduct_groups net b (test_groups t) s)
   \<and> (b = JNull \<and> default_uri t \<noteq> JNull \<longrightarrow>
        conduct_tests net t b s = conduct_groups net (default_uri t) (test_groups t) s)"
  by (simp add: conduct_tests_def)

theorem override_takes_precedence_witness:
  "JStr ''http://y'' \<noteq> JNull
   \<and> conduct_tests example_server example_test (JStr ''http://y'') (0, [])
       = conduct_groups example_server (JStr ''http://y'') (test_groups example_test) (0, [])
   \<and> default_uri example_test \<noteq> JNull
   \<and> conduct_tests example_server example_test JNull (0, [])
       = conduct_groups example_server (JStr ''http://x'') (test_groups example_test) (0, [])"
  using override_takes_precedence
          [where b = "JStr ''http://y''" and net = example_server and t = example_test
             and s = "(0, [])"]
        override_takes_precedence
          [where b = JNull and net = example_server and t = example_test and s = "(0, [])"]
  by (simp add: example_test_def)

text \<open>
  C3, as stated, takes an empty override for one that is not provided, and sends the run
  to the bundle's default. With the empty string as override and the default
  \<^verbatim>\<open>http://x\<close>, the requests go to \<^verbatim>\<open>/a\<close>, not to \<^verbatim>\<open>http://x/a\<close>.
\<close>

theorem empty_override_counterexample:
  "default_uri example_test = JStr ''http://x''
   \<and> requests (snd (snd (conduct_tests example_server example_test (JStr []) (0, []))))
       = [(JStr ''GET'', JStr ''/a''), (JStr ''GET'', JStr ''/a'')]
   \<and> conduct_tests example_server example_test (JStr []) (0, [])
       \<noteq> conduct_groups example_server (default_uri example_test)
            (test_groups example_test) (0, [])"
  by (simp add: conduct_tests_def example_test_def example_case_def example_case_body_def
      example_server_def conduct_def cprint_def requests_def map_filter_def Let_def py_eq_int_def)

subsection \<open>Groups without cases\<close>

lemma conduct_groups_append:
  "conduct_groups net b (xs @ ys) s =
     (case conduct_groups net b xs s of
        (Inl e, s') \<Rightarrow> (Inl e, s')
      | (Inr u, s') \<Rightarrow> conduct_groups net b ys s')"
  by (induction xs arbitrary: s) (auto split: prod.splits sum.splits)

text \<open>
  C10. When the loop over the groups comes to a group without cases, it prints the
  group's name and goes on with the next group: between the groups before and the groups
  after, the trace gains this one line, no case line and no request, and the network is
  not touched.
\<close>

theorem empty_group_prints_only_its_name:
  assumes "test_cases g = []"
    and "conduct_groups net b pre s = (Inr (), (w, tr))"
  shows "conduct_groups net b (pre @ g # post) s
           = conduct_groups net b post (w, tr @ [Cprint [Lit (group_name g)] ''blue'' newline])"
  using assms by (simp add: conduct_groups_append cprint_def)

theorem empty_group_prints_only_its_name_witness:
  "test_cases \<lparr>group_name = ''Empty'', test_cases = []\<rparr> = []
   \<and> conduct_groups example_server (JStr ''http://x'') [] (0, []) = (Inr (), (0, []))
   \<and> conduct_groups example_server (JStr ''http://x'')
        ([] @ \<lparr>group_name = ''Empty'', test_cases = []\<rparr> # []) (0, [])
       = (Inr (), (0, [Cprint [Lit ''Empty''] ''blue'' newline]))"
  using empty_group_prints_only_its_name
          [where g = "\<lparr>group_name = ''Empty'', test_cases = []\<rparr>" and net = example_server
             and b = "JStr ''http://x''" and pre = "[]" and s = "(0, [])" and w = 0
             and tr = "[]" and post = "[]"]
  by simp

subsection \<open>The walk over groups and cases\<close>

lemma report_conduct: "report (snd (snd (conduct net c b s))) = report (snd s)"
  by (simp add: conduct_def report_def map_filter_def Let_def split: prod.splits sum.splits)

lemma report_conduct_cases:
  "fst (conduct_cases net b cs s) = Inr () \<Longrightarrow>
   report (snd (snd (conduct_cases net b cs s)))
     = report (snd s) @ map (\<lambda>c. CaseLine (name c)) cs"
proof (induction cs arbitrary: s)
  case Nil
  show ?case by simp
next
  case (Cons c cs)
  define s1 where "s1 = cprint [Lit tab, Val (name c), Lit '' Testing''] ''grey'' [] s"
  obtain r s2 where c: "conduct net c b s1 = (r, s2)"
    by (cases "conduct net c b s1")
  have r1: "report (snd s1) = report (snd s)"
    by (simp add: s1_def cprint_def report_def map_filter_def)
  have r2: "report (snd s2) = report (snd s)"
    using report_conduct [of net c b s1] c r1 by simp
  show ?case
  proof (cases r)
    case (Inl e)
    with c Cons.prems show ?thesis
      by (simp add: s1_def [symmetric])
  next
    case (Inr v)
    define s3 where "s3 =
      (if v then cprint [Lit (cr @ tab), Val (name c), Lit '' Passed!''] ''green'' newline s2
       else cprint [Lit (cr @ tab), Val (name c), Lit '' Failed!''] ''red'' newline s2)"
    have step: "conduct_cases net b (c # cs) s = conduct_cases net b cs s3"
      using c Inr by (simp add: s1_def [symmetric] s3_def)
    have r3: "report (snd s3) = report (snd s) @ [CaseLine (name c)]"
      using r2 by (simp add: s3_def cprint_def report_def map_filter_def)
    from Cons.prems step have "fst (conduct_cases net b cs s3) = Inr ()" by simp
    from Cons.IH [OF this] step r3 show ?thesis by simp
  qed
qed

lemma report_conduct_groups:
  "fst (conduct_groups net b gs s) = Inr () \<Longrightarrow>
   report (snd (snd (conduct_groups net b gs s)))
     = report (snd s)
       @ concat (map (\<lambda>g. GroupLine (group_name g) # map (\<lambda>c. CaseLine (name c)) (test_cases g)) gs)"
proof (induction gs arbitrary: s)
  case Nil
  show ?case by simp
next
  case (Cons g gs)
  define s1 where "s1 = cprint [Lit (group_name g)] ''blue'' newline s"
  obtain r s2 where c: "conduct_cases net b (test_cases g) s1 = (r, s2)"
    by (cases "conduct_cases net b (test_cases g) s1")
  have r1: "report (snd s1) = report (snd s) @ [GroupLine (group_name g)]"
    by (simp add: s1_def cprint_def report_def map_filter_def)
  show ?case
  proof (cases r)
    case (Inl e)
    with c Cons.prems show ?thesis
      by (simp add: s1_def [symmetric])
  next
    case (Inr v)
    have step: "conduct_groups net b (g # gs) s = conduct_groups net b gs s2"
      using c Inr by (simp add: s1_def [symmetric])
    have "report (snd s2) = report (snd s1) @ map (\<lambda>c. CaseLine (name c)) (test_cases g)"
      using report_conduct_cases [of net b "test_cases g" s1] c Inr by simp
    with r1 have r2: "report (snd s2)
        = report (snd s) @ GroupLine (group_name g) # map (\<lambda>c. CaseLine (name c)) (test_cases g)"
      by simp
    from Cons.prems step have "fst (conduct_groups net b gs s2) = Inr ()" by simp
    from Cons.IH [OF this] step r2 show ?thesis by simp
  qed
qed







subsection \<open>The parser keeps the order of the document\<close>

lemma parse_test_cases_loop_order:
  "parse_test_cases_loop xs acc = Inr cs \<Longrightarrow>
   \<exists>cs'. cs = acc @ cs' \<and> list_all2 (\<lambda>x c. parse_test_case x = Inr c) xs cs'"
proof (induction xs arbitrary: acc)
  case Nil
  then show ?case by simp
next
  case (Cons x xs)
  then obtain c where c: "parse_test_case x = Inr c"
    and rest: "parse_test_cases_loop xs (acc @ [c]) = Inr cs"
    by (auto split: sum.splits)
  from Cons.IH [OF rest] obtain cs' where "cs = (acc @ [c]) @ cs'"
    and "list_all2 (\<lambda>x c. parse_test_case x = Inr c) xs cs'"
    by blast
  with c show ?case by simp
qed

lemma parse_test_cases_array_order:
  "parse_test_cases (JArr xs) = Inr cs \<Longrightarrow> list_all2 (\<lambda>x c. parse_test_case x = Inr c) xs cs"
  using parse_test_cases_loop_order [of xs "[]" cs]
  by (simp add: parse_test_cases_def)

lemma parse_test_groups_loop_order:
  "parse_test_groups_loop d ks acc = Inr gs \<Longrightarrow>
   \<exists>gs'. gs = acc @ gs'
     \<and> list_all2 (\<lambda>k g. group_name g = k
          \<and> (\<exists>v. map_of d k = Some v \<and> parse_test_cases v = Inr (test_cases g))) ks gs'"
proof (induction ks arbitrary: acc)
  case Nil
  then show ?case by simp
next
  case (Cons k ks)
  then obtain v cs where v: "map_of d k = Some v"
    and cs: "parse_test_cases v = Inr cs"
    and rest: "parse_test_groups_loop d ks (acc @ [\<lparr>group_name = k, test_cases = cs\<rparr>]) = Inr gs"
    by (auto simp add: dict_getitem_def split: sum.splits option.splits)
  from Cons.IH [OF rest] obtain gs' where "gs = (acc @ [\<lparr>group_name = k, test_cases = cs\<rparr>]) @ gs'"
    and "list_all2 (\<lambda>k g. group_name g = k
          \<and> (\<exists>v. map_of d k = Some v \<and> parse_test_cases v = Inr (test_cases g))) ks gs'"
    by blast
  with v cs show ?case by simp
qed

lemma dict_in_iff: "dict_in k d \<longleftrightarrow> k \<in> fst ` set d"
  by (simp add: dict_in_def map_of_eq_None_iff)

lemma parse_test_groups_named:
  assumes "dict_in ''Name'' d"
  shows "parse_test_groups d =
    (parse_test_groups_loop
       (filter (\<lambda>kv. fst kv \<noteq> ''Name'' \<and> fst kv \<noteq> ''Default URI'') d)
       (dict_keys (filter (\<lambda>kv. fst kv \<noteq> ''Name'' \<and> fst kv \<noteq> ''Default URI'') d)) [],
     filter (\<lambda>kv. fst kv \<noteq> ''Name'' \<and> fst kv \<noteq> ''Default URI'') d)"
proof -
  define d1 where "d1 = (if dict_in ''Default URI'' d
    then filter (\<lambda>kv. fst kv \<noteq> ''Default URI'') d else d)"
  have d1: "d1 = filter (\<lambda>kv. fst kv \<noteq> ''Default URI'') d"
  proof (cases "dict_in ''Default URI'' d")
    case True
    then show ?thesis by (simp add: d1_def)
  next
    case False
    then have "\<forall>kv\<in>set d. fst kv \<noteq> ''Default URI''"
      by (force simp add: dict_in_iff)
    then have "filter (\<lambda>kv. fst kv \<noteq> ''Default URI'') d = d"
      by (simp add: filter_id_conv)
    with False show ?thesis by (simp add: d1_def)
  qed
  from assms have in1: "dict_in ''Name'' d1"
    by (force simp add: d1 dict_in_iff)
  have "parse_test_groups d =
     (case dict_del d1 ''Name'' of
        Inl e \<Rightarrow> (Inl e, d1)
      | Inr d2 \<Rightarrow> (parse_test_groups_loop d2 (dict_keys d2) [], d2))"
    by (simp add: parse_test_groups_def d1_def dict_del_def)
  with in1 show ?thesis
    by (simp add: dict_del_def d1 conj_commute)
qed

lemma parse_test_groups_unnamed:
  assumes "\<not> dict_in ''Name'' d"
  shows "fst (parse_test_groups d) = Inl (KeyError ''Name'')"
  using assms by (auto simp add: parse_test_groups_def dict_del_def dict_in_iff)

lemma parse_test_groups_returns:
  assumes "parse_test_groups d = (Inr gs, d')"
  shows "dict_in ''Name'' d"
    and "d' = filter (\<lambda>kv. fst kv \<noteq> ''Name'' \<and> fst kv \<noteq> ''Default URI'') d"
    and "parse_test_groups_loop d' (dict_keys d') [] = Inr gs"
proof -
  show n: "dict_in ''Name'' d"
    using assms parse_test_groups_unnamed [of d] by auto
  from parse_test_groups_named [OF n] assms
  show "d' = filter (\<lambda>kv. fst kv \<noteq> ''Name'' \<and> fst kv \<noteq> ''Default URI'') d"
    and "parse_test_groups_loop d' (dict_keys d') [] = Inr gs"
    by simp_all
qed

lemma parse_tests_groups:
  assumes "parse_tests (JObj d) = Inr t"
  shows "\<exists>d'. parse_test_groups d = (Inr (test_groups t), d')"
proof -
  obtain r d' where p: "parse_test_groups d = (r, d')"
    by (cases "parse_test_groups d")
  with assms show ?thesis
    by (auto simp add: parse_tests_def split: sum.splits)
qed

lemma parse_test_groups_order:
  assumes ok: "dict_ok d"
    and p: "parse_test_groups d = (Inr gs, d')"
  shows "list_all2 (\<lambda>(k, v) g. group_name g = k \<and> parse_test_cases v = Inr (test_cases g))
           (filter (\<lambda>(k, v). k \<noteq> ''Name'' \<and> k \<noteq> ''Default URI'') d) gs"
proof -
  note r = parse_test_groups_returns [OF p]
  have d': "d' = filter (\<lambda>(k, v). k \<noteq> ''Name'' \<and> k \<noteq> ''Default URI'') d"
    by (simp add: r(2) case_prod_unfold)
  from ok have dist: "distinct (map fst d')"
    by (simp add: dict_ok_def r(2) distinct_map_filter)
  from parse_test_groups_loop_order [OF r(3)]
  have "list_all2 (\<lambda>k g. group_name g = k
          \<and> (\<exists>v. map_of d' k = Some v \<and> parse_test_cases v = Inr (test_cases g)))
        (map fst d') gs"
    by (simp add: dict_keys_def)
  then have "list_all2 (\<lambda>kv g. group_name g = fst kv
          \<and> (\<exists>v. map_of d' (fst kv) = Some v \<and> parse_test_cases v = Inr (test_cases g)))
        d' gs"
    by (simp add: list_all2_map1)
  then have "list_all2 (\<lambda>(k, v) g. group_name g = k \<and> parse_test_cases v = Inr (test_cases g))
        d' gs"
  proof (rule list.rel_mono_strong)
    fix kv g
    assume "kv \<in> set d'"
      and "group_name g = fst kv
        \<and> (\<exists>v. map_of d' (fst kv) = Some v \<and> parse_test_cases v = Inr (test_cases g))"
    with dist show "(case kv of (k, v) \<Rightarrow>
        \<lambda>g. group_name g = k \<and> parse_test_cases v = Inr (test_cases g)) g"
      by (cases kv) auto
  qed
  with d' show ?thesis by simp
qed

text \<open>
  C5. For a document \<open>d\<close> (a dict, so without repeated keys) that parses to the bundle
  \<open>t\<close>: the groups of \<open>t\<close> are the keys of \<open>d\<close> other than \<^verbatim>\<open>Name\<close> and
  \<^verbatim>\<open>Default URI\<close>, in the order of the document; the cases of each group are the
  parsed elements of the array under its key, in the order of the array; and a run over
  \<open>t\<close> that ends normally reports the groups and, under each, its cases in that order.
\<close>

theorem order_of_groups_and_cases:
  assumes "dict_ok d"
    and "parse_tests (JObj d) = Inr t"
    and "fst (conduct_tests net t b s) = Inr ()"
  shows "map group_name (test_groups t)
           = filter (\<lambda>k. k \<noteq> ''Name'' \<and> k \<noteq> ''Default URI'') (dict_keys d)
    \<and> list_all2 (\<lambda>(k, v) g. group_name g = k
          \<and> (\<forall>xs. v = JArr xs \<longrightarrow>
                list_all2 (\<lambda>x c. parse_test_case x = Inr c) xs (test_cases g)))
        (filter (\<lambda>(k, v). k \<noteq> ''Name'' \<and> k \<noteq> ''Default URI'') d) (test_groups t)
    \<and> report (snd (snd (conduct_tests net t b s)))
        = report (snd s)
          @ concat (map (\<lambda>g. GroupLine (group_name g)
                              # map (\<lambda>c. CaseLine (name c)) (test_cases g))
                     (test_groups t))"
proof -
  from parse_tests_groups [OF assms(2)] obtain d'
    where p: "parse_test_groups d = (Inr (test_groups t), d')" by blast
  note o = parse_test_groups_order [OF assms(1) p]
  have names: "map group_name (test_groups t)
      = filter (\<lambda>k. k \<noteq> ''Name'' \<and> k \<noteq> ''Default URI'') (dict_keys d)"
  proof -
    from o have "list_all2 (\<lambda>kv g. fst kv = group_name g)
        (filter (\<lambda>(k, v). k \<noteq> ''Name'' \<and> k \<noteq> ''Default URI'') d) (test_groups t)"
      by (rule list.rel_mono_strong) auto
    then have "map fst (filter (\<lambda>(k, v). k \<noteq> ''Name'' \<and> k \<noteq> ''Default URI'') d)
        = map group_name (test_groups t)"
      by (simp add: list.rel_eq [symmetric] list.rel_map)
    then show ?thesis
      by (simp add: dict_keys_def filter_map comp_def case_prod_unfold)
  qed
  from o have arrays: "list_all2 (\<lambda>(k, v) g. group_name g = k
          \<and> (\<forall>xs. v = JArr xs \<longrightarrow>
                list_all2 (\<lambda>x c. parse_test_case x = Inr c) xs (test_cases g)))
        (filter (\<lambda>(k, v). k \<noteq> ''Name'' \<and> k \<noteq> ''Default URI'') d) (test_groups t)"
    by (rule list.rel_mono_strong) (auto dest: parse_test_cases_array_order)
  have rep: "report (snd (snd (conduct_tests net t b s)))
        = report (snd s)
          @ concat (map (\<lambda>g. GroupLine (group_name g)
                              # map (\<lambda>c. CaseLine (name c)) (test_cases g))
                     (test_groups t))"
  proof (cases "b = JNull")
    case True
    with assms(3) have "conduct_tests net t b s
        = conduct_groups net (default_uri t) (test_groups t) s"
      by (auto simp add: conduct_tests_def split: if_splits)
    with assms(3) report_conduct_groups [of net "default_uri t" "test_groups t" s]
    show ?thesis by simp
  next
    case False
    then have "conduct_tests net t b s = conduct_groups net b (test_groups t) s"
      by (simp add: conduct_tests_def)
    with assms(3) report_conduct_groups [of net b "test_groups t" s]
    show ?thesis by simp
  qed
  from names arrays rep show ?thesis by simp
qed

theorem order_of_groups_and_cases_witness:
  "map group_name (test_groups example_test) = [''Zeta'', ''Alpha'']
   \<and> map (map name \<circ> test_cases) (test_groups example_test)
       = [[JStr ''c2'', JStr ''c1''], []]
   \<and> report (snd (snd (conduct_tests example_server example_test JNull (0, []))))
       = [GroupLine ''Zeta'', CaseLine (JStr ''c2''), CaseLine (JStr ''c1''), GroupLine ''Alpha'']"
proof -
  have ok: "dict_ok example_document"
    by (simp add: dict_ok_def example_document_def)
  have p: "parse_tests (JObj example_document) = Inr example_test"
    by (simp add: parse_tests_def parse_test_groups_def example_document_def dict_in_def
        dict_del_def dict_keys_def dict_getitem_def dict_get_def parse_test_cases_def
        parse_test_case_def example_test_def example_case_def example_case_body_def)
  have run: "fst (conduct_tests example_server example_test JNull (0, [])) = Inr ()"
    by (simp add: conduct_tests_def example_test_def example_case_def example_case_body_def
        example_server_def conduct_def cprint_def Let_def py_eq_int_def)
  from order_of_groups_and_cases [OF ok p run] show ?thesis
    by (simp add: example_test_def example_case_def example_case_body_def report_def
        example_document_def dict_keys_def)
qed

subsection \<open>The parser changes the dict it is given\<close>

text \<open>
  C9. When \<^verbatim>\<open>parse_test_groups\<close> returns, the dict it was given has lost the keys
  \<^verbatim>\<open>Name\<close> and \<^verbatim>\<open>Default URI\<close> and kept the others in their order. So reading
  \<^verbatim>\<open>Default URI\<close> from it afterwards gives \<^verbatim>\<open>None\<close>, while \<^verbatim>\<open>parse_tests\<close>, which
  reads it first, has the value of the document; and a second call on the same dict
  raises \<^verbatim>\<open>KeyError\<close> at \<^verbatim>\<open>del program_data["Name"]\<close>.
\<close>

theorem parse_test_groups_deletes_reserved_keys:
  assumes "parse_test_groups d = (Inr gs, d')"
  shows "d' = filter (\<lambda>kv. fst kv \<noteq> ''Name'' \<and> fst kv \<noteq> ''Default URI'') d
    \<and> dict_in ''Name'' d \<and> \<not> dict_in ''Name'' d' \<and> \<not> dict_in ''Default URI'' d'
    \<and> dict_get d' ''Default URI'' = JNull
    \<and> fst (parse_test_groups d') = Inl (KeyError ''Name'')
    \<and> (\<forall>t. parse_tests (JObj d) = Inr t \<longrightarrow> default_uri t = dict_get d ''Default URI'')"
proof -
  note r = parse_test_groups_returns [OF assms]
  have n: "\<not> dict_in ''Name'' d'" and u: "\<not> dict_in ''Default URI'' d'"
    by (auto simp add: r(2) dict_in_iff)
  from u have g: "dict_get d' ''Default URI'' = JNull"
    by (simp add: dict_get_def dict_in_def)
  from n u have again: "fst (parse_test_groups d') = Inl (KeyError ''Name'')"
    by (simp add: parse_test_groups_def dict_del_def)
  have "\<forall>t. parse_tests (JObj d) = Inr t \<longrightarrow> default_uri t = dict_get d ''Default URI''"
    by (auto simp add: parse_tests_def split: sum.splits)
  with r n u g again show ?thesis by simp
qed

theorem parse_test_groups_deletes_reserved_keys_witness:
  "snd (parse_test_groups example_document)
     = [(''Zeta'', JArr [JObj [(''Name'', JStr ''c2''), (''Endpoint'', JStr ''/a''),
                               (''Method'', JStr ''GET''), (''Status'', JInt 200),
                               (''Output'', JStr ''ok'')],
                         JObj [(''Name'', JStr ''c1''), (''Endpoint'', JStr ''/a''),
                               (''Method'', JStr ''GET''), (''Status'', JInt 200)]]),
        (''Alpha'', JArr [])]
   \<and> dict_get example_document ''Default URI'' = JStr ''http://x''
   \<and> dict_get (snd (parse_test_groups example_document)) ''Default URI'' = JNull
   \<and> fst (parse_test_groups (snd (parse_test_groups example_document)))
       = Inl (KeyError ''Name'')"
proof -
  define d' :: dict where "d' =
       [(''Zeta'', JArr [JObj [(''Name'', JStr ''c2''), (''Endpoint'', JStr ''/a''),
                               (''Method'', JStr ''GET''), (''Status'', JInt 200),
                               (''Output'', JStr ''ok'')],
                         JObj [(''Name'', JStr ''c1''), (''Endpoint'', JStr ''/a''),
                               (''Method'', JStr ''GET''), (''Status'', JInt 200)]]),
        (''Alpha'', JArr [])]"
  have p: "parse_test_groups example_document
    = (Inr [\<lparr>group_name = ''Zeta'', test_cases = [example_case_body, example_case]\<rparr>,
            \<lparr>group_name = ''Alpha'', test_cases = []\<rparr>], d')"
    by (simp add: parse_test_groups_def example_document_def dict_in_def dict_del_def
        dict_keys_def dict_getitem_def dict_get_def parse_test_cases_def parse_test_case_def
        example_case_def example_case_body_def d'_def)
  have g: "dict_get example_document ''Default URI'' = JStr ''http://x''"
    by (simp add: example_document_def dict_get_def)
  from parse_test_groups_deletes_reserved_keys [OF p]
  have a: "dict_get d' ''Default URI'' = JNull"
    and b: "fst (parse_test_groups d') = Inl (KeyError ''Name'')"
    by blast+
  have "snd (parse_test_groups example_document) = d'"
    by (simp add: p)
  with a b g show ?thesis
    by (simp add: d'_def [symmetric])
qed

subsection \<open>Missing keys\<close>










end
